theory Spec2Isabelle
  imports Complex_Main "HOL-Library.Word"
begin

section \<open>Strings\<close>

text \<open>
  \<^verbatim>\<open>std::string\<close> is a \<^typ>\<open>string\<close>. \<^verbatim>\<open>std::string::find\<close> and
  \<^verbatim>\<open>find_first_of\<close> with a single character return the position of its first
  occurrence, or \<^verbatim>\<open>npos\<close>, here \<^term>\<open>None\<close>.
\<close>

definition str_find :: "string \<Rightarrow> char \<Rightarrow> nat option" where
  "str_find s c =
     (if c \<in> set s then Some (length (takeWhile (\<lambda>x. x \<noteq> c) s)) else None)"

text \<open>\<^verbatim>\<open>s.substr(pos)\<close>, only ever called with \<^verbatim>\<open>pos <= s.size()\<close>.\<close>

definition substr_from :: "string \<Rightarrow> nat \<Rightarrow> string" where
  "substr_from s pos = drop pos s"

text \<open>\<^verbatim>\<open>s.substr(0, n)\<close> where \<^verbatim>\<open>n\<close> may be \<^verbatim>\<open>npos\<close> (the whole string).\<close>

definition substr_to :: "string \<Rightarrow> nat option \<Rightarrow> string" where
  "substr_to s n = (case n of None \<Rightarrow> s | Some k \<Rightarrow> take k s)"

text \<open>
  Modelled from the spec: \<^verbatim>\<open>String::toLower\<close> is not part of the sources; the
  spec says the name is lower-cased. ASCII letters are mapped, every other byte is kept.
\<close>

definition toLower_char :: "char \<Rightarrow> char" where
  "toLower_char c =
     (case map_of (zip ''ABCDEFGHIJKLMNOPQRSTUVWXYZ'' ''abcdefghijklmnopqrstuvwxyz'') c of
        Some l \<Rightarrow> l
      | None \<Rightarrow> c)"

definition toLower :: "string \<Rightarrow> string" where
  "toLower s = map toLower_char s"

text \<open>
  Modelled from the spec: \<^verbatim>\<open>String::tokenize(s, tokens, delims)\<close> is not part of
  the sources; the spec says the header value is tokenized on the delimiter characters.
  The string is cut at every delimiter character and empty pieces are dropped.
\<close>

fun tokenize_from :: "string \<Rightarrow> string \<Rightarrow> string \<Rightarrow> string list" where
  "tokenize_from delims cur [] = (if cur = [] then [] else [cur])"
| "tokenize_from delims cur (c # cs) =
     (if c \<in> set delims
      then (if cur = [] then [] else [cur]) @ tokenize_from delims [] cs
      else tokenize_from delims (cur @ [c]) cs)"

definition tokenize :: "string \<Rightarrow> string \<Rightarrow> string list" where
  "tokenize s delims = tokenize_from delims [] s"

text \<open>
  Modelled from the spec: \<^verbatim>\<open>String::parseDouble\<close> is not part of the sources. The
  general results below take the parser as a parameter; this one, used for concrete header
  values, reads an unsigned decimal numeral (digits with an optional fraction) and gives
  weight 1 to anything else, as the spec says of an unparseable quality value. A C++
  \<^verbatim>\<open>double\<close> is a \<^typ>\<open>real\<close> here: the code only compares qualities with
  \<^verbatim>\<open><\<close>.
\<close>

definition digit_val :: "char \<Rightarrow> nat option" where
  "digit_val c = map_of (zip ''0123456789'' [0, 1, 2, 3, 4, 5, 6, 7, 8, 9]) c"

definition is_digits :: "string \<Rightarrow> bool" where
  "is_digits s = (s \<noteq> [] \<and> list_all (\<lambda>c. digit_val c \<noteq> None) s)"

definition digits_val :: "string \<Rightarrow> nat" where
  "digits_val s = foldl (\<lambda>n c. 10 * n + (case digit_val c of None \<Rightarrow> 0 | Some d \<Rightarrow> d)) 0 s"

definition parseDouble :: "string \<Rightarrow> real" where
  "parseDouble s =
     (case str_find s (CHR ''.'') of
        None \<Rightarrow> (if is_digits s then real (digits_val s) else 1)
      | Some p \<Rightarrow>
          (let ip = take p s; fp = drop (Suc p) s
           in if is_digits ip \<and> is_digits fp
              then real (digits_val ip) + real (digits_val fp) / 10 ^ length fp
              else 1))"

section \<open>Headers\<close>

text \<open>
  Modelled from the spec: the \<^verbatim>\<open>Headers\<close> class is not part of the sources. It is an
  ordered multimap with case-insensitive keys: \<^verbatim>\<open>has\<close> is an existence check,
  \<^verbatim>\<open>find\<close> returns the empty string when the name is absent, \<^verbatim>\<open>get\<close> fails
  when it is absent, \<^verbatim>\<open>add\<close> appends an entry, \<^verbatim>\<open>remove\<close> deletes all entries of
  the name and \<^verbatim>\<open>set\<close> replaces them.
\<close>

type_synonym headers = "(string \<times> string) list"

datatype exn = Exception string

definition same_name :: "string \<Rightarrow> string \<Rightarrow> bool" where
  "same_name a b = (toLower a = toLower b)"

definition hdr_lookup :: "headers \<Rightarrow> string \<Rightarrow> string option" where
  "hdr_lookup h name = map_option snd (find (\<lambda>e. same_name (fst e) name) h)"

definition hdr_has :: "headers \<Rightarrow> string \<Rightarrow> bool" where
  "hdr_has h name = (hdr_lookup h name \<noteq> None)"

definition hdr_find :: "headers \<Rightarrow> string \<Rightarrow> string" where
  "hdr_find h name = (case hdr_lookup h name of None \<Rightarrow> [] | Some v \<Rightarrow> v)"

definition hdr_get :: "headers \<Rightarrow> string \<Rightarrow> exn + string" where
  "hdr_get h name =
     (case hdr_lookup h name of
        None \<Rightarrow> Inl (Exception (''Header '' @ name @ '' not found''))
      | Some v \<Rightarrow> Inr v)"

definition hdr_add :: "headers \<Rightarrow> string \<Rightarrow> string \<Rightarrow> headers" where
  "hdr_add h name v = h @ [(name, v)]"

definition hdr_remove :: "headers \<Rightarrow> string \<Rightarrow> headers" where
  "hdr_remove h name = filter (\<lambda>e. \<not> same_name (fst e) name) h"

definition hdr_set :: "headers \<Rightarrow> string \<Rightarrow> string \<Rightarrow> headers" where
  "hdr_set h name v = hdr_add (hdr_remove h name) name v"

section \<open>The request object\<close>

text \<open>
  \<^verbatim>\<open>Request::compression_t\<close>, with the enumerators the source refers to.
\<close>

datatype compression_t =
  COMPRESS_NONE | COMPRESS_ZLIB | COMPRESS_GZIP | COMPRESS_BZIP2 | COMPRESS_AUTO

text \<open>A JSON value.\<close>

datatype json =
  JNull | JBoolean bool | JNumber int | JString string
  | JList "json list" | JDict "(string \<times> json) list"

text \<open>
  Modelled from the spec: \<^verbatim>\<open>JSON::Dict\<close>, which holds the request's arguments, is
  not part of the sources; the spec says the argument dictionary keeps insertion order and
  that the last write wins on a key collision. \<^verbatim>\<open>insert\<close> replaces the value of a
  key that is present, in place, and appends a new key.
\<close>

type_synonym dict = "(string \<times> json) list"

fun dict_insert :: "dict \<Rightarrow> string \<Rightarrow> json \<Rightarrow> dict" where
  "dict_insert [] k v = [(k, v)]"
| "dict_insert ((k', v') # d) k v =
     (if k' = k then (k, v) # d else (k', v') # dict_insert d k v)"

definition dict_get :: "dict \<Rightarrow> string \<Rightarrow> json option" where
  "dict_get d k = map_of d k"

text \<open>
  The calls the request makes on the transport (libevent's \<^verbatim>\<open>evhttp_*\<close> functions),
  recorded in the order they are made. The reason phrase passed along with the status code
  comes from \<^verbatim>\<open>HTTPStatus\<close>, which is not part of the sources, and is left out;
  the buffer argument of \<^verbatim>\<open>evhttp_send_reply\<close> is \<^verbatim>\<open>None\<close> for a null pointer.
\<close>

datatype evhttp_call =
  evhttp_send_error int
  | evhttp_send_reply int "string option"
  | evhttp_send_reply_start int
  | evhttp_send_reply_chunk string
  | evhttp_send_reply_end
  | evhttp_cancel_request

text \<open>
  The part of \<^verbatim>\<open>Request\<close> and of the \<^verbatim>\<open>evhttp_request\<close> it wraps that the
  modelled member functions read and write. The handle itself is taken to be set, as it
  is from construction until the transport releases the request.
\<close>

record request =
  finalized :: bool
  input_headers :: headers
  output_headers :: headers
  input_buffer :: string
  output_buffer :: string
  uri_extension :: string
  uri_query :: "(string \<times> string) list"
  args :: dict
  transport :: "evhttp_call list"

definition inHas :: "request \<Rightarrow> string \<Rightarrow> bool" where
  "inHas r name = hdr_has (input_headers r) name"

definition inFind :: "request \<Rightarrow> string \<Rightarrow> string" where
  "inFind r name = hdr_find (input_headers r) name"

definition inGet :: "request \<Rightarrow> string \<Rightarrow> exn + string" where
  "inGet r name = hdr_get (input_headers r) name"

definition outHas :: "request \<Rightarrow> string \<Rightarrow> bool" where
  "outHas r name = hdr_has (output_headers r) name"

definition outFind :: "request \<Rightarrow> string \<Rightarrow> string" where
  "outFind r name = hdr_find (output_headers r) name"

definition outSet :: "string \<Rightarrow> string \<Rightarrow> request \<Rightarrow> request" where
  "outSet name v r = r\<lparr>output_headers := hdr_set (output_headers r) name v\<rparr>"

section \<open>Content negotiation\<close>

text \<open>The local variables of the loop in \<^verbatim>\<open>Request::getRequestedCompression\<close>.\<close>

record negotiation =
  maxQ :: real
  otherQ :: real
  named :: "string set"
  compression :: compression_t

text \<open>
  One iteration of the loop, for the token \<^verbatim>\<open>accept[i]\<close>. The parser of the quality
  value is the parameter \<open>parse\<close>.
\<close>

definition accept_token :: "(string \<Rightarrow> real) \<Rightarrow> negotiation \<Rightarrow> string \<Rightarrow> negotiation" where
  "accept_token parse st tok =
     (let name0 = toLower tok;
          (name, q, oq) =
            (case str_find name0 (CHR '';'') of
               None \<Rightarrow> (name0, 1, otherQ st)
             | Some pos \<Rightarrow>
                 (let arg = substr_from name0 (pos + 1);
                      name = substr_to name0 (Some pos)
                  in if 2 < length arg \<and> arg ! 0 = CHR ''q'' \<and> arg ! 1 = CHR ''=''
                     then (let q = parse (substr_from arg 2)
                           in (name, q, if name = ''*'' then q else otherQ st))
                     else (name, 1, otherQ st)));
          (comp, q') =
            (if maxQ st < q then
               (if name = ''identity'' then (COMPRESS_NONE, q)
                else if name = ''gzip'' then (COMPRESS_GZIP, q)
                else if name = ''zlib'' then (COMPRESS_ZLIB, q)
                else if name = ''bzip2'' then (COMPRESS_BZIP2, q)
                else (compression st, 0))
             else (compression st, q))
      in \<lparr>maxQ = (if maxQ st < q' then q' else maxQ st),
          otherQ = oq,
          named = insert name (named st),
          compression = comp\<rparr>)"

definition accept_delims :: string where
  "accept_delims = [CHR '','', CHR '' '', CHR 0x09]"

definition negotiation_init :: negotiation where
  "negotiation_init =
     \<lparr>maxQ = 0, otherQ = 0, named = {}, compression = COMPRESS_NONE\<rparr>"

definition getRequestedCompression :: "(string \<Rightarrow> real) \<Rightarrow> request \<Rightarrow> exn + compression_t" where
  "getRequestedCompression parse r =
     (if \<not> inHas r ''Accept-Encoding'' then Inr COMPRESS_NONE
      else case inGet r ''Accept-Encoding'' of
             Inl e \<Rightarrow> Inl e
           | Inr v \<Rightarrow>
               (let st = foldl (accept_token parse) negotiation_init (tokenize v accept_delims)
                in if maxQ st < otherQ st \<and> ''gzip'' \<notin> named st
                   then Inr COMPRESS_GZIP
                   else Inr (compression st)))"

section \<open>Cookies\<close>

definition cookie_delims :: string where
  "cookie_delims = [CHR '';'', CHR '' '', CHR 0x09, CHR 0x0A, CHR 0x0D]"

text \<open>The loops of \<^verbatim>\<open>hasCookie\<close> and \<^verbatim>\<open>findCookie\<close>, which return at the first match.\<close>

fun hasCookie_loop :: "string \<Rightarrow> string list \<Rightarrow> bool" where
  "hasCookie_loop name [] = False"
| "hasCookie_loop name (c # cookies) =
     (if name = substr_to c (str_find c (CHR ''='')) then True
      else hasCookie_loop name cookies)"

definition hasCookie :: "request \<Rightarrow> string \<Rightarrow> exn + bool" where
  "hasCookie r name =
     (if \<not> inHas r ''Cookie'' then Inr False
      else case inGet r ''Cookie'' of
             Inl e \<Rightarrow> Inl e
           | Inr v \<Rightarrow> Inr (hasCookie_loop name (tokenize v cookie_delims)))"

fun findCookie_loop :: "string \<Rightarrow> string list \<Rightarrow> string option" where
  "findCookie_loop name [] = None"
| "findCookie_loop name (c # cookies) =
     (let pos = str_find c (CHR ''='')
      in if name = substr_to c pos
         then Some (case pos of None \<Rightarrow> [] | Some p \<Rightarrow> substr_from c (p + 1))
         else findCookie_loop name cookies)"

definition findCookie :: "request \<Rightarrow> string \<Rightarrow> exn + string" where
  "findCookie r name =
     (if inHas r ''Cookie''
      then case inGet r ''Cookie'' of
             Inl e \<Rightarrow> Inl e
           | Inr v \<Rightarrow>
               (case findCookie_loop name (tokenize v cookie_delims) of
                  Some s \<Rightarrow> Inr s
                | None \<Rightarrow> Inr [])
      else Inr [])"

definition getCookie :: "request \<Rightarrow> string \<Rightarrow> exn + string" where
  "getCookie r name =
     (case hasCookie r name of
        Inl e \<Rightarrow> Inl e
      | Inr b \<Rightarrow>
          if \<not> b then Inl (Exception (''Cookie '' @ [CHR 0x27] @ name @ [CHR 0x27] @ '' not set''))
          else findCookie r name)"

section \<open>Output: content type, content encoding and streams\<close>

text \<open>
  What a member function leaves behind: the exception it threw or the value it returned,
  and the request as it is afterwards (a function that throws may have changed it before).
\<close>

type_synonym 'a outcome = "(exn + 'a) \<times> request"

definition and_then :: "unit outcome \<Rightarrow> (request \<Rightarrow> 'a outcome) \<Rightarrow> 'a outcome" where
  "and_then m f = (case m of (Inl e, r) \<Rightarrow> (Inl e, r) | (Inr u, r) \<Rightarrow> f r)"

definition resetOutput :: "request \<Rightarrow> unit outcome" where
  "resetOutput r =
     (if finalized r
      then (Inl (Exception ''Cannot reset output after Request has been finalized''), r)
      else (Inr (), r\<lparr>output_buffer := []\<rparr>))"

definition hasContentType :: "request \<Rightarrow> bool" where
  "hasContentType r = hdr_has (output_headers r) ''Content-Type''"

definition getContentType :: "request \<Rightarrow> string" where
  "getContentType r = hdr_find (output_headers r) ''Content-Type''"

definition setContentType :: "string \<Rightarrow> request \<Rightarrow> request" where
  "setContentType contentType r =
     r\<lparr>output_headers := hdr_set (output_headers r) ''Content-Type'' contentType\<rparr>"

text \<open>
  Modelled from the spec: \<^verbatim>\<open>Headers::guessContentType\<close> is not part of the sources;
  the spec calls it a fallback driven by the URI's file extension. The table from
  extensions to content types is the parameter \<open>guess\<close>; an extension it does not know
  sets nothing.
\<close>

definition guessContentType :: "(string \<Rightarrow> string option) \<Rightarrow> request \<Rightarrow> request" where
  "guessContentType guess r =
     (case guess (uri_extension r) of
        None \<Rightarrow> r
      | Some contentType \<Rightarrow> setContentType contentType r)"

definition getContentEncoding :: "compression_t \<Rightarrow> string option" where
  "getContentEncoding c =
     (case c of
        COMPRESS_ZLIB \<Rightarrow> Some ''zlib''
      | COMPRESS_GZIP \<Rightarrow> Some ''gzip''
      | COMPRESS_BZIP2 \<Rightarrow> Some ''bzip2''
      | _ \<Rightarrow> None)"

text \<open>
  The three compressing cases of the \<^verbatim>\<open>switch\<close> share one body. The encoding
  name is a C string that is never null in these cases.
\<close>

definition outSetContentEncoding :: "compression_t \<Rightarrow> request \<Rightarrow> request" where
  "outSetContentEncoding c r =
     (if c = COMPRESS_ZLIB \<or> c = COMPRESS_GZIP \<or> c = COMPRESS_BZIP2
      then (case getContentEncoding c of
              Some encoding \<Rightarrow> outSet ''Content-Encoding'' encoding r
            | None \<Rightarrow> r)
      else r)"

text \<open>
  The stream \<^verbatim>\<open>compressBufferStream\<close> builds: the buffer's own stream, or a filtering
  stream with one compressor pushed in front of it.
\<close>

datatype compressor = zlib_compressor | gzip_compressor | bzip2_compressor

datatype ostream = BufferStream | FilteringOStream compressor ostream

definition compressBufferStream :: "compression_t \<Rightarrow> ostream" where
  "compressBufferStream c =
     (case c of
        COMPRESS_ZLIB \<Rightarrow> FilteringOStream zlib_compressor BufferStream
      | COMPRESS_GZIP \<Rightarrow> FilteringOStream gzip_compressor BufferStream
      | COMPRESS_BZIP2 \<Rightarrow> FilteringOStream bzip2_compressor BufferStream
      | _ \<Rightarrow> BufferStream)"

text \<open>
  The bytes that reach the buffer once everything written to a stream has been flushed.
  The compressors are boost's; what they compute is the parameter \<open>compress\<close>.
\<close>

fun stream_output :: "(compressor \<Rightarrow> string \<Rightarrow> string) \<Rightarrow> ostream \<Rightarrow> string \<Rightarrow> string" where
  "stream_output compress BufferStream bytes = bytes"
| "stream_output compress (FilteringOStream c target) bytes =
     stream_output compress target (compress c bytes)"

definition getOutputStream ::
  "(string \<Rightarrow> real) \<Rightarrow> compression_t \<Rightarrow> request \<Rightarrow> ostream outcome" where
  "getOutputStream parse c r =
     (case (if c = COMPRESS_AUTO then getRequestedCompression parse r else Inr c) of
        Inl e \<Rightarrow> (Inl e, r)
      | Inr c' \<Rightarrow> (Inr (compressBufferStream c'), outSetContentEncoding c' r))"

section \<open>Finalize, reply and chunked reply\<close>

definition HTTP_OK :: int where
  "HTTP_OK = 200"

definition HTTP_INTERNAL_SERVER_ERROR :: int where
  "HTTP_INTERNAL_SERVER_ERROR = 500"

definition evhttp :: "evhttp_call \<Rightarrow> request \<Rightarrow> request" where
  "evhttp c r = r\<lparr>transport := transport r @ [c]\<rparr>"

definition finalize :: "(string \<Rightarrow> string option) \<Rightarrow> request \<Rightarrow> unit outcome" where
  "finalize guess r =
     (if finalized r then (Inl (Exception ''Request already finalized''), r)
      else (let r1 = r\<lparr>finalized := True\<rparr>
            in (Inr (), if \<not> hasContentType r1 then guessContentType guess r1 else r1)))"

definition send :: "string \<Rightarrow> request \<Rightarrow> request" where
  "send bytes r = r\<lparr>output_buffer := output_buffer r @ bytes\<rparr>"

definition sendError :: "(string \<Rightarrow> string option) \<Rightarrow> int \<Rightarrow> request \<Rightarrow> unit outcome" where
  "sendError guess code r =
     and_then (finalize guess r)
       (\<lambda>r. (Inr (),
              evhttp (evhttp_send_error (if code \<noteq> 0 then code else HTTP_INTERNAL_SERVER_ERROR)) r))"

definition sendError_message ::
  "(string \<Rightarrow> string option) \<Rightarrow> int \<Rightarrow> string \<Rightarrow> request \<Rightarrow> unit outcome" where
  "sendError_message guess code message r =
     and_then (resetOutput r)
       (\<lambda>r. sendError guess code (send message (setContentType ''text/plain'' r)))"

definition reply :: "(string \<Rightarrow> string option) \<Rightarrow> int \<Rightarrow> request \<Rightarrow> unit outcome" where
  "reply guess code r =
     and_then (finalize guess r) (\<lambda>r. (Inr (), evhttp (evhttp_send_reply code None) r))"

definition reply_string ::
  "(string \<Rightarrow> string option) \<Rightarrow> int \<Rightarrow> string \<Rightarrow> request \<Rightarrow> unit outcome" where
  "reply_string guess code s r = reply guess code (send s r)"

definition reply_buffer ::
  "(string \<Rightarrow> string option) \<Rightarrow> int \<Rightarrow> string \<Rightarrow> request \<Rightarrow> unit outcome" where
  "reply_buffer guess code buf r =
     and_then (finalize guess r) (\<lambda>r. (Inr (), evhttp (evhttp_send_reply code (Some buf)) r))"

text \<open>
  \<^verbatim>\<open>reply(buf)\<close> and \<^verbatim>\<open>reply(data, length)\<close>, which reply with
  \<^verbatim>\<open>HTTP_OK\<close>. A buffer and a string are both the bytes they hold, so the overloads
  of \<^verbatim>\<open>sendChunk\<close> are one function.
\<close>

definition reply_ok :: "(string \<Rightarrow> string option) \<Rightarrow> string \<Rightarrow> request \<Rightarrow> unit outcome" where
  "reply_ok guess buf r = reply_buffer guess HTTP_OK buf r"

definition startChunked :: "int \<Rightarrow> request \<Rightarrow> unit outcome" where
  "startChunked code r = (Inr (), evhttp (evhttp_send_reply_start code) r)"

definition sendChunk :: "string \<Rightarrow> request \<Rightarrow> unit outcome" where
  "sendChunk buf r = (Inr (), evhttp (evhttp_send_reply_chunk buf) r)"

definition endChunked :: "(string \<Rightarrow> string option) \<Rightarrow> request \<Rightarrow> unit outcome" where
  "endChunked guess r =
     and_then (finalize guess r) (\<lambda>r. (Inr (), evhttp evhttp_send_reply_end r))"

definition cancel :: "request \<Rightarrow> unit outcome" where
  "cancel r = (Inr (), (evhttp evhttp_cancel_request r)\<lparr>finalized := True\<rparr>)"

text \<open>
  The calls an application can make on a request between two calls of
  \<^verbatim>\<open>finalize\<close>. An exception is the caller's to catch; the request stays as the
  throwing call left it.
\<close>

datatype request_call =
  Call_sendError int
  | Call_sendError_message int string
  | Call_reply int
  | Call_reply_string int string
  | Call_reply_buffer int string
  | Call_reply_ok string
  | Call_startChunked int
  | Call_sendChunk string
  | Call_endChunked
  | Call_finalize
  | Call_cancel
  | Call_resetOutput
  | Call_send string
  | Call_setContentType string
  | Call_outSet string string

fun run_call :: "(string \<Rightarrow> string option) \<Rightarrow> request_call \<Rightarrow> request \<Rightarrow> unit outcome" where
  "run_call guess (Call_sendError code) r = sendError guess code r"
| "run_call guess (Call_sendError_message code m) r = sendError_message guess code m r"
| "run_call guess (Call_reply code) r = reply guess code r"
| "run_call guess (Call_reply_string code s) r = reply_string guess code s r"
| "run_call guess (Call_reply_buffer code b) r = reply_buffer guess code b r"
| "run_call guess (Call_reply_ok b) r = reply_ok guess b r"
| "run_call guess (Call_startChunked code) r = startChunked code r"
| "run_call guess (Call_sendChunk b) r = sendChunk b r"
| "run_call guess Call_endChunked r = endChunked guess r"
| "run_call guess Call_finalize r = finalize guess r"
| "run_call guess Call_cancel r = cancel r"
| "run_call guess Call_resetOutput r = resetOutput r"
| "run_call guess (Call_send s) r = (Inr (), send s r)"
| "run_call guess (Call_setContentType t) r = (Inr (), setContentType t r)"
| "run_call guess (Call_outSet n v) r = (Inr (), outSet n v r)"

definition run_calls :: "(string \<Rightarrow> string option) \<Rightarrow> request_call list \<Rightarrow> request \<Rightarrow> request" where
  "run_calls guess calls r = foldl (\<lambda>r c. snd (run_call guess c r)) r calls"

section \<open>Structured writers\<close>

text \<open>
  The local \<^verbatim>\<open>JSONWriter\<close>: a buffer of its own, the stream over that buffer and the
  JSON serializer writing to the stream. \<^verbatim>\<open>JSON::Writer\<close> is not part of the sources:
  the bytes it has written to the stream so far are the field \<open>written\<close>. The three
  variants differ in what \<^verbatim>\<open>close\<close> and \<^verbatim>\<open>send\<close> do.
\<close>

datatype writer_variant = Plain_writer | JSONP_writer | Chunk_writer

record json_writer =
  variant :: writer_variant
  indent :: nat
  compact :: bool
  writer_compression :: compression_t
  stream :: ostream
  written :: string

definition stream_write :: "string \<Rightarrow> json_writer \<Rightarrow> json_writer" where
  "stream_write bytes w = w\<lparr>written := written w @ bytes\<rparr>"

definition JSONWriter ::
  "writer_variant \<Rightarrow> nat \<Rightarrow> bool \<Rightarrow> compression_t \<Rightarrow> request \<Rightarrow> json_writer \<times> request" where
  "JSONWriter v i c codec r =
     (\<lparr>variant = v, indent = i, compact = c, writer_compression = codec,
       stream = compressBufferStream codec, written = []\<rparr>,
      outSetContentEncoding codec r)"

definition getJSONWriter ::
  "nat \<Rightarrow> bool \<Rightarrow> compression_t \<Rightarrow> request \<Rightarrow> json_writer outcome" where
  "getJSONWriter i c codec r =
     and_then (resetOutput r)
       (\<lambda>r. case JSONWriter Plain_writer i c codec (setContentType ''application/json'' r) of
               (w, r') \<Rightarrow> (Inr w, r'))"

definition getJSONPWriter :: "string \<Rightarrow> request \<Rightarrow> json_writer outcome" where
  "getJSONPWriter callback r =
     and_then (resetOutput r)
       (\<lambda>r. case JSONWriter JSONP_writer 0 True COMPRESS_NONE
                    (setContentType ''application/javascript'' r) of
               (w, r') \<Rightarrow> (Inr (stream_write (callback @ ''('') w), r'))"

definition getJSONChunkWriter :: "request \<Rightarrow> json_writer outcome" where
  "getJSONChunkWriter r =
     (case JSONWriter Chunk_writer 0 True COMPRESS_NONE r of (w, r') \<Rightarrow> (Inr w, r'))"

text \<open>
  \<^verbatim>\<open>close\<close>: the JSONP variant writes the closing parenthesis first; then the stream
  is released, which flushes it into the writer's buffer, and the buffer is sent: added to
  the request's output buffer, or sent as one chunk by the chunked variant.
\<close>

definition writer_close ::
  "(compressor \<Rightarrow> string \<Rightarrow> string) \<Rightarrow> json_writer \<Rightarrow> request \<Rightarrow> unit outcome" where
  "writer_close compress w r =
     (let w' = (if variant w = JSONP_writer then stream_write '')'' w else w);
          buffer = stream_output compress (stream w') (written w')
      in if variant w = Chunk_writer then sendChunk buffer r
         else (Inr (), send buffer r))"

section \<open>Request arguments\<close>

definition startsWith :: "string \<Rightarrow> string \<Rightarrow> bool" where
  "startsWith s p = (take (length p) s = p)"

definition insertArg :: "string \<Rightarrow> string \<Rightarrow> request \<Rightarrow> request" where
  "insertArg key v r = r\<lparr>args := dict_insert (args r) key (JString v)\<rparr>"

text \<open>
  Modelled from the spec: \<^verbatim>\<open>JSON::Reader\<close> and \<^verbatim>\<open>JSON::Builder\<close> are not part of
  the sources. \<^verbatim>\<open>next\<close> is the first character of the body that is not white space;
  \<^verbatim>\<open>parseDict\<close> with a builder on the argument dictionary inserts the members of the
  object the body holds, in their order, or fails. The members it reads from a body, or
  the parse failure, are the parameter \<open>parseDict\<close>.
\<close>

definition reader_next :: "string \<Rightarrow> char option" where
  "reader_next body =
     (case dropWhile (\<lambda>c. c \<in> set [CHR '' '', CHR 0x09, CHR 0x0A, CHR 0x0D]) body of
        [] \<Rightarrow> None
      | c # rest \<Rightarrow> Some c)"

definition json_typed :: "request \<Rightarrow> bool" where
  "json_typed r =
     (hdr_has (input_headers r) ''Content-Type''
      \<and> startsWith (hdr_find (input_headers r) ''Content-Type'') ''application/json'')"

definition parseJSONArgs ::
  "(string \<Rightarrow> exn + (string \<times> json) list) \<Rightarrow> request \<Rightarrow> unit outcome" where
  "parseJSONArgs parseDict r =
     (if json_typed r then
        (let buf = input_buffer r
         in if length buf \<noteq> 0 then
              (if reader_next buf = Some (CHR ''{'') then
                 (case parseDict buf of
                    Inl e \<Rightarrow> (Inl e, r)
                  | Inr members \<Rightarrow>
                      (Inr (), r\<lparr>args := foldl (\<lambda>d (k, v). dict_insert d k v) (args r) members\<rparr>))
               else (Inr (), r))
            else (Inr (), r))
      else (Inr (), r))"

definition parseQueryArgs :: "request \<Rightarrow> unit outcome" where
  "parseQueryArgs r = (Inr (), foldl (\<lambda>r (k, v). insertArg k v r) r (uri_query r))"

definition parseArgs ::
  "(string \<Rightarrow> exn + (string \<times> json) list) \<Rightarrow> request \<Rightarrow> unit outcome" where
  "parseArgs parseDict r = and_then (parseJSONArgs parseDict r) parseQueryArgs"

section \<open>Connection\<close>

text \<open>
  Modelled from the spec: \<^verbatim>\<open>IPAddress\<close> is not part of the sources. It holds a host
  name, a 32-bit address and a 16-bit port; the default constructor leaves them empty and
  zero, the constructor from a host and a port stores both, and the setters overwrite
  one field.
\<close>

record IPAddress =
  host :: string
  ip :: "32 word"
  port :: "16 word"

definition IPAddress_default :: IPAddress where
  "IPAddress_default = \<lparr>host = [], ip = 0, port = 0\<rparr>"

definition IPAddress_of :: "string \<Rightarrow> 16 word \<Rightarrow> IPAddress" where
  "IPAddress_of h p = \<lparr>host = h, ip = 0, port = p\<rparr>"

definition setPort :: "16 word \<Rightarrow> IPAddress \<Rightarrow> IPAddress" where
  "setPort p a = a\<lparr>port := p\<rparr>"

definition setIP :: "32 word \<Rightarrow> IPAddress \<Rightarrow> IPAddress" where
  "setIP i a = a\<lparr>ip := i\<rparr>"

text \<open>
  What \<^verbatim>\<open>Connection::getPeer\<close> reads from the \<^verbatim>\<open>evhttp_connection\<close>: the peer
  the transport reports (\<^verbatim>\<open>evhttp_connection_get_peer\<close>; the address is a null
  pointer when there is none) and the raw socket address
  (\<^verbatim>\<open>evhttp_connection_get_addr\<close>, possibly null), whose IPv4 fields are read only
  when the family is \<^verbatim>\<open>AF_INET\<close>.
\<close>

record sockaddr =
  sa_family :: nat
  sin_port :: "16 word"
  sin_addr :: "32 word"

definition AF_INET :: nat where
  "AF_INET = 2"

record evhttp_connection =
  peer_address :: "string option"
  peer_port :: "16 word"
  socket_addr :: "sockaddr option"

definition getPeer :: "evhttp_connection \<Rightarrow> IPAddress" where
  "getPeer con =
     (let peer = IPAddress_default;
          peer = (case peer_address con of
                    Some addr \<Rightarrow> IPAddress_of addr (peer_port con)
                  | None \<Rightarrow> peer)
      in case socket_addr con of
           Some sa \<Rightarrow>
             if sa_family sa = AF_INET then setIP (sin_addr sa) (setPort (sin_port sa) peer)
             else peer
         | None \<Rightarrow> peer)"

section \<open>The negotiation rule, as the specification words it\<close>

text \<open>
  What the loop reads off one token: its lower-cased name, whether it carries an explicit
  \<^verbatim>\<open>q=<number>\<close> parameter, and its quality (1 unless explicit).
\<close>

definition token_name :: "string \<Rightarrow> string" where
  "token_name tok = substr_to (toLower tok) (str_find (toLower tok) (CHR '';''))"

definition token_arg :: "string \<Rightarrow> string option" where
  "token_arg tok =
     (case str_find (toLower tok) (CHR '';'') of
        None \<Rightarrow> None
      | Some pos \<Rightarrow> Some (substr_from (toLower tok) (pos + 1)))"

definition explicit_q :: "string \<Rightarrow> bool" where
  "explicit_q tok =
     (case token_arg tok of
        None \<Rightarrow> False
      | Some arg \<Rightarrow> 2 < length arg \<and> arg ! 0 = CHR ''q'' \<and> arg ! 1 = CHR ''='')"

definition token_quality :: "(string \<Rightarrow> real) \<Rightarrow> string \<Rightarrow> real" where
  "token_quality parse tok =
     (case token_arg tok of
        None \<Rightarrow> 1
      | Some arg \<Rightarrow> if explicit_q tok then parse (substr_from arg 2) else 1)"

text \<open>
  The recognized names and their codecs. The maximum quality seen is the largest quality
  of a token with a recognized name, and at least 0. The scan's selection is the codec of
  the last token with a recognized name whose quality strictly exceeds the maximum over
  the tokens before it (\<open>last_improving\<close> takes the tokens latest first). The wildcard
  quality is the one of the last token \<^verbatim>\<open>*\<close> with an explicit quality, 0 without one.
\<close>

definition codec_of_name :: "string \<Rightarrow> compression_t option" where
  "codec_of_name =
     map_of [(''identity'', COMPRESS_NONE), (''gzip'', COMPRESS_GZIP),
             (''zlib'', COMPRESS_ZLIB), (''bzip2'', COMPRESS_BZIP2)]"

definition recognized :: "string \<Rightarrow> bool" where
  "recognized tok = (codec_of_name (token_name tok) \<noteq> None)"

definition max_quality :: "(string \<Rightarrow> real) \<Rightarrow> string list \<Rightarrow> real" where
  "max_quality parse toks =
     Max (set (0 # map (token_quality parse) (filter recognized toks)))"

fun last_improving :: "(string \<Rightarrow> real) \<Rightarrow> string list \<Rightarrow> compression_t" where
  "last_improving parse [] = COMPRESS_NONE"
| "last_improving parse (tok # earlier) =
     (case codec_of_name (token_name tok) of
        Some c \<Rightarrow>
          if max_quality parse earlier < token_quality parse tok then c
          else last_improving parse earlier
      | None \<Rightarrow> last_improving parse earlier)"

definition scan_selection :: "(string \<Rightarrow> real) \<Rightarrow> string list \<Rightarrow> compression_t" where
  "scan_selection parse toks = last_improving parse (rev toks)"

definition wildcard_quality :: "(string \<Rightarrow> real) \<Rightarrow> string list \<Rightarrow> real" where
  "wildcard_quality parse toks =
     (let ws = filter (\<lambda>t. token_name t = ''*'' \<and> explicit_q t) toks
      in if ws = [] then 0 else token_quality parse (last ws))"

definition negotiate :: "(string \<Rightarrow> real) \<Rightarrow> string list \<Rightarrow> compression_t" where
  "negotiate parse toks =
     (if max_quality parse toks < wildcard_quality parse toks
         \<and> ''gzip'' \<notin> set (map token_name toks)
      then COMPRESS_GZIP
      else scan_selection parse toks)"

text \<open>A request as the transport delivers it, with the given input headers.\<close>

definition incoming :: "headers \<Rightarrow> request" where
  "incoming h =
     \<lparr>finalized = False, input_headers = h, output_headers = [], input_buffer = [],
      output_buffer = [], uri_extension = [], uri_query = [], args = [], transport = []\<rparr>"

text \<open>Two tables of content types by extension: an empty one and a small one.\<close>

definition no_guess :: "string \<Rightarrow> string option" where
  "no_guess ext = None"

definition some_guess :: "string \<Rightarrow> string option" where
  "some_guess = map_of [(''png'', ''image/png''), (''html'', ''text/html'')]"

text \<open>The request body \<^verbatim>\<open>{"x":1}\<close>.\<close>

definition body_x1 :: string where
  "body_x1 = CHR ''{'' # CHR 0x22 # CHR ''x'' # CHR 0x22 # '':1}''"

section \<open>Content negotiation: the loop computes the rule\<close>

lemma max_quality_nonneg: "0 \<le> max_quality parse toks"
  by (simp add: max_quality_def)

lemma max_quality_rev: "max_quality parse (rev toks) = max_quality parse toks"
  by (simp add: max_quality_def)

lemma max_quality_snoc:
  "max_quality parse (toks @ [tok]) =
     (if recognized tok then max (max_quality parse toks) (token_quality parse tok)
      else max_quality parse toks)"
proof -
  have fin: "finite (set (map (token_quality parse) (filter recognized toks)))" by simp
  show ?thesis
  proof (cases "recognized tok")
    case False
    then show ?thesis by (simp add: max_quality_def)
  next
    case True
    let ?S = "token_quality parse ` {x \<in> set toks. recognized x}"
    have "Max (insert 0 (insert (token_quality parse tok) ?S))
            = max (token_quality parse tok) (Max (insert 0 ?S))"
      by (subst insert_commute) (rule Max_insert, simp_all)
    with True show ?thesis
      by (simp add: max_quality_def max.commute Un_commute)
  qed
qed

lemma wildcard_quality_snoc:
  "wildcard_quality parse (toks @ [tok]) =
     (if token_name tok = ''*'' \<and> explicit_q tok then token_quality parse tok
      else wildcard_quality parse toks)"
  by (simp add: wildcard_quality_def)

lemma scan_selection_snoc:
  "scan_selection parse (toks @ [tok]) =
     (case codec_of_name (token_name tok) of
        Some c \<Rightarrow>
          if max_quality parse toks < token_quality parse tok then c
          else scan_selection parse toks
      | None \<Rightarrow> scan_selection parse toks)"
  by (simp add: scan_selection_def max_quality_rev split: option.splits)

lemma select_codec:
  "(if m < q then
      (if n = ''identity'' then (COMPRESS_NONE, q)
       else if n = ''gzip'' then (COMPRESS_GZIP, q)
       else if n = ''zlib'' then (COMPRESS_ZLIB, q)
       else if n = ''bzip2'' then (COMPRESS_BZIP2, q)
       else (c, 0))
    else (c, q)) =
   (case codec_of_name n of
      Some c' \<Rightarrow> (if m < q then c' else c, q)
    | None \<Rightarrow> (c, if m < q then 0 else q))"
  by (simp add: codec_of_name_def)

lemma accept_token_step:
  assumes "0 \<le> maxQ st"
  shows "accept_token parse st tok =
     \<lparr>maxQ = (if recognized tok then max (maxQ st) (token_quality parse tok) else maxQ st),
      otherQ = (if token_name tok = ''*'' \<and> explicit_q tok then token_quality parse tok
                else otherQ st),
      named = insert (token_name tok) (named st),
      compression =
        (case codec_of_name (token_name tok) of
           Some c \<Rightarrow> if maxQ st < token_quality parse tok then c else compression st
         | None \<Rightarrow> compression st)\<rparr>"
proof -
  define n where "n = token_name tok"
  define q where "q = token_quality parse tok"
  define oq where "oq = (if n = ''*'' \<and> explicit_q tok then q else otherQ st)"
  define t where "t = toLower tok"
  have parsed:
    "(case str_find t (CHR '';'') of
        None \<Rightarrow> (t, 1, otherQ st)
      | Some pos \<Rightarrow>
          if 2 < length (substr_from t (pos + 1)) \<and> substr_from t (pos + 1) ! 0 = CHR ''q''
             \<and> substr_from t (pos + 1) ! 1 = CHR ''=''
          then (substr_to t (Some pos), parse (substr_from (substr_from t (pos + 1)) 2),
                if substr_to t (Some pos) = ''*''
                then parse (substr_from (substr_from t (pos + 1)) 2) else otherQ st)
          else (substr_to t (Some pos), 1, otherQ st)) = (n, q, oq)"
    unfolding n_def q_def oq_def token_name_def token_quality_def explicit_q_def token_arg_def
      t_def [symmetric]
    by (cases "str_find t (CHR '';'')") (simp_all add: substr_to_def)
  have "accept_token parse st tok =
     (let (comp, q') =
            (case codec_of_name n of
               Some c' \<Rightarrow> (if maxQ st < q then c' else compression st, q)
             | None \<Rightarrow> (compression st, if maxQ st < q then 0 else q))
      in \<lparr>maxQ = (if maxQ st < q' then q' else maxQ st), otherQ = oq,
          named = insert n (named st), compression = comp\<rparr>)"
    unfolding accept_token_def Let_def t_def [symmetric] select_codec parsed by simp
  also have "\<dots> =
     \<lparr>maxQ = (if codec_of_name n \<noteq> None then max (maxQ st) q else maxQ st),
      otherQ = oq, named = insert n (named st),
      compression =
        (case codec_of_name n of
           Some c \<Rightarrow> if maxQ st < q then c else compression st
         | None \<Rightarrow> compression st)\<rparr>"
    using assms by (cases "codec_of_name n") (auto simp: max_def)
  finally show ?thesis
    unfolding n_def q_def oq_def recognized_def .
qed

lemma scan_invariant:
  "maxQ (foldl (accept_token parse) negotiation_init toks) = max_quality parse toks \<and>
   otherQ (foldl (accept_token parse) negotiation_init toks) = wildcard_quality parse toks \<and>
   named (foldl (accept_token parse) negotiation_init toks) = set (map token_name toks) \<and>
   compression (foldl (accept_token parse) negotiation_init toks) = scan_selection parse toks"
proof (induction toks rule: rev_induct)
  case Nil
  show ?case
    by (simp add: negotiation_init_def max_quality_def wildcard_quality_def scan_selection_def)
next
  case (snoc tok toks)
  let ?st = "foldl (accept_token parse) negotiation_init toks"
  from snoc have m: "maxQ ?st = max_quality parse toks"
    and o: "otherQ ?st = wildcard_quality parse toks"
    and n: "named ?st = set (map token_name toks)"
    and c: "compression ?st = scan_selection parse toks"
    by simp_all
  have "0 \<le> maxQ ?st" by (simp add: m max_quality_nonneg)
  then have "foldl (accept_token parse) negotiation_init (toks @ [tok]) =
     \<lparr>maxQ = max_quality parse (toks @ [tok]),
      otherQ = wildcard_quality parse (toks @ [tok]),
      named = set (map token_name (toks @ [tok])),
      compression = scan_selection parse (toks @ [tok])\<rparr>"
    by (simp add: accept_token_step m o n c max_quality_snoc wildcard_quality_snoc
        scan_selection_snoc split: option.splits)
  then show ?case by simp
qed

lemma hdr_get_has: "hdr_has h name \<Longrightarrow> hdr_get h name = Inr (hdr_find h name)"
  by (auto simp: hdr_has_def hdr_get_def hdr_find_def)


lemma hdr_get_find: "hdr_get h name = Inr v \<Longrightarrow> hdr_has h name \<and> hdr_find h name = v"
  by (auto simp: hdr_has_def hdr_get_def hdr_find_def split: option.splits)

lemma hdr_find_absent: "\<not> hdr_has h name \<Longrightarrow> hdr_find h name = []"
  by (simp add: hdr_has_def hdr_find_def)

lemma getRequestedCompression_negotiate:
  "getRequestedCompression parse r =
     Inr (if inHas r ''Accept-Encoding''
          then negotiate parse (tokenize (inFind r ''Accept-Encoding'') accept_delims)
          else COMPRESS_NONE)"
  by (simp add: getRequestedCompression_def inHas_def inGet_def inFind_def hdr_get_has
      Let_def negotiate_def scan_invariant)

lemma tokenize_empty: "tokenize [] delims = []"
  by (simp add: tokenize_def)

lemma negotiate_empty: "negotiate parse [] = COMPRESS_NONE"
  by (simp add: negotiate_def scan_selection_def max_quality_def wildcard_quality_def)

lemma getRequestedCompression_tokens:
  "getRequestedCompression parse r =
     Inr (negotiate parse (tokenize (inFind r ''Accept-Encoding'') accept_delims))"
  by (simp add: getRequestedCompression_negotiate inHas_def inFind_def hdr_find_absent
      tokenize_empty negotiate_empty)

text \<open>
  C1: for every Accept-Encoding value the scan selects the codec of the last recognized
  name (identity, gzip, zlib, bzip2) whose quality strictly exceeds the running maximum;
  the result is Gzip instead exactly when the quality explicitly given to the wildcard
  strictly exceeds the maximum quality seen and no token is named gzip; without an
  Accept-Encoding header the result is None.
\<close>

theorem C1_negotiation:
  "getRequestedCompression parse r =
     Inr (if inHas r ''Accept-Encoding''
          then (let toks = tokenize (inFind r ''Accept-Encoding'') accept_delims
                in if max_quality parse toks < wildcard_quality parse toks
                      \<and> ''gzip'' \<notin> set (map token_name toks)
                   then COMPRESS_GZIP
                   else scan_selection parse toks)
          else COMPRESS_NONE)"
  by (simp add: getRequestedCompression_negotiate negotiate_def Let_def)

theorem C1_negotiation_witness:
  "getRequestedCompression parseDouble
     (incoming [(''Accept-Encoding'', ''gzip;q=0.5, zlib;q=0.8, identity;q=0.8'')])
     = Inr COMPRESS_ZLIB
   \<and> getRequestedCompression parseDouble
     (incoming [(''Accept-Encoding'', ''zlib;q=0.5, *;q=0.9'')]) = Inr COMPRESS_GZIP
   \<and> getRequestedCompression parseDouble (incoming []) = Inr COMPRESS_NONE"
  unfolding C1_negotiation by code_simp

section \<open>Negotiation on particular header values\<close>

lemma last_improving_unrecognized:
  "\<forall>tok \<in> set toks. codec_of_name (token_name tok) \<in> {None, Some COMPRESS_NONE} \<Longrightarrow>
   last_improving parse toks = COMPRESS_NONE"
  by (induction toks) (auto split: option.splits)

lemma codec_of_name_cases:
  "codec_of_name n \<in> {None, Some COMPRESS_NONE} \<longleftrightarrow> n \<notin> {''gzip'', ''zlib'', ''bzip2''}"
  by (simp add: codec_of_name_def)

lemma wildcard_quality_none:
  "\<forall>tok \<in> set toks. token_name tok = ''*'' \<longrightarrow> \<not> explicit_q tok \<Longrightarrow>
   wildcard_quality parse toks = 0"
  by (simp add: wildcard_quality_def filter_empty_conv)

text \<open>
  C2, as amended: for the header value \<^verbatim>\<open>gzip;q=0.1, *;q=0.9\<close> the result is Gzip.
  The wildcard override does not apply, because gzip is named; gzip is what the scan
  selected, its quality 0.1 being the only one of a recognized name.
\<close>

theorem C2_gzip_named:
  assumes "inGet r ''Accept-Encoding'' = Inr ''gzip;q=0.1, *;q=0.9''"
    and "0 < parse ''0.1''"
  shows "getRequestedCompression parse r = Inr COMPRESS_GZIP
     \<and> scan_selection parse (tokenize ''gzip;q=0.1, *;q=0.9'' accept_delims) = COMPRESS_GZIP
     \<and> ''gzip'' \<in> set (map token_name (tokenize ''gzip;q=0.1, *;q=0.9'' accept_delims))"
proof -
  have toks: "tokenize ''gzip;q=0.1, *;q=0.9'' accept_delims = [''gzip;q=0.1'', ''*;q=0.9'']"
    by (simp add: tokenize_def accept_delims_def)
  have n1: "token_name ''gzip;q=0.1'' = ''gzip''"
    by (simp add: token_name_def toLower_def toLower_char_def str_find_def substr_to_def)
  have n2: "token_name ''*;q=0.9'' = ''*''"
    by (simp add: token_name_def toLower_def toLower_char_def str_find_def substr_to_def)
  have q1: "token_quality parse ''gzip;q=0.1'' = parse ''0.1''"
    by (simp add: token_quality_def token_arg_def explicit_q_def toLower_def toLower_char_def
        str_find_def substr_from_def)
  have sel: "scan_selection parse [''gzip;q=0.1'', ''*;q=0.9''] = COMPRESS_GZIP"
    using assms(2)
    by (simp add: scan_selection_def n1 n2 q1 codec_of_name_def max_quality_def)
  have "inFind r ''Accept-Encoding'' = ''gzip;q=0.1, *;q=0.9''"
    using assms(1) hdr_get_find by (simp add: inGet_def inFind_def)
  then have "getRequestedCompression parse r = Inr (negotiate parse [''gzip;q=0.1'', ''*;q=0.9''])"
    by (simp add: getRequestedCompression_tokens toks)
  then show ?thesis
    by (simp add: toks sel n1 n2 negotiate_def)
qed

theorem C2_gzip_named_witness:
  "getRequestedCompression parseDouble (incoming [(''Accept-Encoding'', ''gzip;q=0.1, *;q=0.9'')])
     = Inr COMPRESS_GZIP"
proof -
  have "inGet (incoming [(''Accept-Encoding'', ''gzip;q=0.1, *;q=0.9'')]) ''Accept-Encoding''
          = Inr ''gzip;q=0.1, *;q=0.9''"
    by code_simp
  moreover have "0 < parseDouble ''0.1''"
    by code_simp
  ultimately show ?thesis
    using C2_gzip_named by blast
qed

theorem C2_counterexample:
  "getRequestedCompression parseDouble (incoming [(''Accept-Encoding'', ''gzip;q=0.1, *;q=0.9'')])
     \<noteq> Inr COMPRESS_NONE"
  by code_simp

text \<open>
  C9, as amended: when no wildcard token of the Accept-Encoding value carries an explicit
  quality, the wildcard override never fires and the result is the scan's selection; it
  is None when, moreover, none of gzip, zlib and bzip2 is named, as for the header value
  \<^verbatim>\<open>*\<close> alone.
\<close>

theorem C9_bare_wildcard:
  assumes "\<forall>tok \<in> set (tokenize (inFind r ''Accept-Encoding'') accept_delims).
             token_name tok = ''*'' \<longrightarrow> \<not> explicit_q tok"
  shows "getRequestedCompression parse r =
           Inr (scan_selection parse (tokenize (inFind r ''Accept-Encoding'') accept_delims))
     \<and> ((\<forall>tok \<in> set (tokenize (inFind r ''Accept-Encoding'') accept_delims).
            token_name tok \<notin> {''gzip'', ''zlib'', ''bzip2''})
          \<longrightarrow> getRequestedCompression parse r = Inr COMPRESS_NONE)"
proof -
  let ?toks = "tokenize (inFind r ''Accept-Encoding'') accept_delims"
  have "wildcard_quality parse ?toks = 0"
    using assms by (rule wildcard_quality_none)
  then have "\<not> max_quality parse ?toks < wildcard_quality parse ?toks"
    using max_quality_nonneg [of parse ?toks] by simp
  then have res: "getRequestedCompression parse r = Inr (scan_selection parse ?toks)"
    by (simp add: getRequestedCompression_tokens negotiate_def)
  have "scan_selection parse ?toks = COMPRESS_NONE"
    if "\<forall>tok \<in> set ?toks. token_name tok \<notin> {''gzip'', ''zlib'', ''bzip2''}"
    unfolding scan_selection_def
    by (rule last_improving_unrecognized) (use that codec_of_name_cases in auto)
  with res show ?thesis by simp
qed

theorem C9_bare_wildcard_witness:
  "getRequestedCompression parseDouble (incoming [(''Accept-Encoding'', ''*'')])
     = Inr COMPRESS_NONE"
proof -
  let ?r = "incoming [(''Accept-Encoding'', ''*'')]"
  have toks: "tokenize (inFind ?r ''Accept-Encoding'') accept_delims = [''*'']"
    by code_simp
  have "\<not> explicit_q ''*''" and "token_name ''*'' = ''*''"
    by code_simp+
  then show ?thesis
    using C9_bare_wildcard [of ?r parseDouble, THEN conjunct2] by (simp add: toks)
qed

theorem C9_counterexample:
  "''*'' \<in> set (tokenize ''gzip, *'' accept_delims) \<and> \<not> explicit_q ''*''
   \<and> getRequestedCompression parseDouble (incoming [(''Accept-Encoding'', ''gzip, *'')])
       = Inr COMPRESS_GZIP
   \<and> ''*'' \<in> set (tokenize ''*, *;q=0.5'' accept_delims)
   \<and> getRequestedCompression parseDouble (incoming [(''Accept-Encoding'', ''*, *;q=0.5'')])
       = Inr COMPRESS_GZIP"
  by code_simp

section \<open>Cookies: the first match wins\<close>

lemma cookie_name_split:
  "CHR ''='' \<notin> set name \<Longrightarrow>
   str_find (name @ CHR ''='' # val) (CHR ''='') = Some (length name)"
proof -
  assume "CHR ''='' \<notin> set name"
  then have "takeWhile (\<lambda>x. x \<noteq> CHR ''='') (name @ CHR ''='' # val) = name"
    by (auto simp: takeWhile_tail)
  then show ?thesis
    by (simp add: str_find_def)
qed

lemma findCookie_loop_first:
  assumes "CHR ''='' \<notin> set name"
    and "\<forall>c \<in> set before. substr_to c (str_find c (CHR ''='')) \<noteq> name"
  shows "findCookie_loop name (before @ (name @ CHR ''='' # val) # rest) = Some val"
  using assms
  by (induction before) (auto simp: cookie_name_split substr_to_def substr_from_def Let_def)

lemma hasCookie_loop_iff:
  "hasCookie_loop name cookies \<longleftrightarrow>
     (\<exists>c \<in> set cookies. substr_to c (str_find c (CHR ''='')) = name)"
  by (induction cookies) auto

text \<open>
  C5: the cookies are the tokens of the single Cookie header line, and the first token
  whose name matches wins, whatever follows it: with \<^verbatim>\<open>Cookie: a=1; b=2; a=3\<close>,
  \<^verbatim>\<open>findCookie("a")\<close> is \<^verbatim>\<open>"1"\<close>, \<^verbatim>\<open>hasCookie("b")\<close> is true and
  \<^verbatim>\<open>hasCookie("c")\<close> is false.
\<close>

theorem C5_first_cookie_wins:
  "(inGet r ''Cookie'' = Inr v
      \<and> tokenize v cookie_delims = before @ (name @ CHR ''='' # val) # rest
      \<and> CHR ''='' \<notin> set name
      \<and> (\<forall>c \<in> set before. substr_to c (str_find c (CHR ''='')) \<noteq> name)
    \<longrightarrow> findCookie r name = Inr val \<and> hasCookie r name = Inr True)
   \<and> findCookie (incoming [(''Cookie'', ''a=1; b=2; a=3'')]) ''a'' = Inr ''1''
   \<and> hasCookie (incoming [(''Cookie'', ''a=1; b=2; a=3'')]) ''b'' = Inr True
   \<and> hasCookie (incoming [(''Cookie'', ''a=1; b=2; a=3'')]) ''c'' = Inr False"
proof -
  have general: "findCookie r name = Inr val \<and> hasCookie r name = Inr True"
    if get: "inGet r ''Cookie'' = Inr v"
      and toks: "tokenize v cookie_delims = before @ (name @ CHR ''='' # val) # rest"
      and name: "CHR ''='' \<notin> set name"
      and first: "\<forall>c \<in> set before. substr_to c (str_find c (CHR ''='')) \<noteq> name"
  proof -
    have has: "inHas r ''Cookie''"
      using get hdr_get_find by (simp add: inGet_def inHas_def)
    have "findCookie_loop name (tokenize v cookie_delims) = Some val"
      unfolding toks using name first by (rule findCookie_loop_first)
    moreover have "hasCookie_loop name (tokenize v cookie_delims)"
      unfolding toks hasCookie_loop_iff using name
      by (simp add: cookie_name_split substr_to_def)
    ultimately show ?thesis
      using has get by (simp add: findCookie_def hasCookie_def)
  qed
  have "findCookie (incoming [(''Cookie'', ''a=1; b=2; a=3'')]) ''a'' = Inr ''1''"
    by code_simp
  moreover have "hasCookie (incoming [(''Cookie'', ''a=1; b=2; a=3'')]) ''b'' = Inr True"
    by code_simp
  moreover have "hasCookie (incoming [(''Cookie'', ''a=1; b=2; a=3'')]) ''c'' = Inr False"
    by code_simp
  ultimately show ?thesis
    using general by blast
qed

theorem C5_first_cookie_wins_witness:
  "findCookie (incoming [(''Cookie'', ''b=2; a=1; a=3'')]) ''a'' = Inr ''1''
   \<and> hasCookie (incoming [(''Cookie'', ''b=2; a=1; a=3'')]) ''a'' = Inr True"
proof -
  let ?r = "incoming [(''Cookie'', ''b=2; a=1; a=3'')]"
  have "inGet ?r ''Cookie'' = Inr ''b=2; a=1; a=3''"
    by code_simp
  moreover have "tokenize ''b=2; a=1; a=3'' cookie_delims = [''b=2''] @ (''a'' @ CHR ''='' # ''1'') # [''a=3'']"
    by code_simp
  moreover have "CHR ''='' \<notin> set ''a''"
    by simp
  moreover have "\<forall>c \<in> set [''b=2'']. substr_to c (str_find c (CHR ''='')) \<noteq> ''a''"
    by code_simp
  ultimately show ?thesis
    using C5_first_cookie_wins [of ?r "''b=2; a=1; a=3''" "[''b=2'']" "''a''" "''1''" "[''a=3'']"]
    by blast
qed

section \<open>Setting and finding a header\<close>

lemma same_name_refl: "same_name n n"
  by (simp add: same_name_def)

lemma find_filter_snoc:
  "P x \<Longrightarrow> find P (filter (\<lambda>e. \<not> P e) xs @ [x]) = Some x"
  by (induction xs) auto

lemma find_filter_other:
  "(\<And>e. P e \<Longrightarrow> R e) \<Longrightarrow> find P (filter R xs) = find P xs"
  by (induction xs) auto

lemma find_snoc_other: "\<not> P x \<Longrightarrow> find P (xs @ [x]) = find P xs"
  by (induction xs) auto

lemma hdr_lookup_set: "hdr_lookup (hdr_set h name v) name = Some v"
  using find_filter_snoc [of "\<lambda>e. same_name (fst e) name" "(name, v)" h]
  by (simp add: hdr_lookup_def hdr_set_def hdr_add_def hdr_remove_def same_name_refl)

lemma hdr_find_set: "hdr_find (hdr_set h name v) name = v"
  by (simp add: hdr_find_def hdr_lookup_set)

lemma hdr_has_set: "hdr_has (hdr_set h name v) name"
  by (simp add: hdr_has_def hdr_lookup_set)

lemma hdr_entries_set:
  "filter (\<lambda>e. same_name (fst e) name) (hdr_set h name v) = [(name, v)]"
  by (simp add: hdr_set_def hdr_add_def hdr_remove_def same_name_refl)

lemma hdr_lookup_set_other:
  assumes "\<not> same_name name other"
  shows "hdr_lookup (hdr_set h name v) other = hdr_lookup h other"
proof -
  have diff: "\<not> same_name (fst e) name" if "same_name (fst e) other" for e :: "string \<times> string"
    using that assms by (simp add: same_name_def)
  have "find (\<lambda>e. same_name (fst e) other) (filter (\<lambda>e. \<not> same_name (fst e) name) h @ [(name, v)])
          = find (\<lambda>e. same_name (fst e) other) (filter (\<lambda>e. \<not> same_name (fst e) name) h)"
    using assms by (simp add: find_snoc_other)
  also have "\<dots> = find (\<lambda>e. same_name (fst e) other) h"
    using diff by (rule find_filter_other)
  finally show ?thesis
    by (simp add: hdr_lookup_def hdr_set_def hdr_add_def hdr_remove_def)
qed

section \<open>The finalized flag never clears\<close>

lemma finalize_again:
  "finalized r \<Longrightarrow> finalize guess r = (Inl (Exception ''Request already finalized''), r)"
  by (simp add: finalize_def)

lemma finalize_first:
  "\<not> finalized r \<Longrightarrow>
   finalize guess r =
     (Inr (), if hasContentType r then r\<lparr>finalized := True\<rparr>
              else guessContentType guess (r\<lparr>finalized := True\<rparr>))"
  by (simp add: finalize_def Let_def hasContentType_def)

lemma finalized_guessContentType [simp]:
  "finalized (guessContentType guess r) = finalized r"
  by (simp add: guessContentType_def setContentType_def split: option.splits)

lemma finalized_finalize: "finalized (snd (finalize guess r))"
  by (simp add: finalize_def Let_def)

lemma finalized_run_call: "finalized r \<Longrightarrow> finalized (snd (run_call guess c r))"
  by (cases c)
    (simp_all add: sendError_def sendError_message_def reply_def reply_string_def
      reply_buffer_def reply_ok_def startChunked_def sendChunk_def endChunked_def cancel_def
      resetOutput_def finalize_def and_then_def evhttp_def send_def setContentType_def
      outSet_def)

lemma finalized_run_calls: "finalized r \<Longrightarrow> finalized (run_calls guess calls r)"
  unfolding run_calls_def
  by (induction calls arbitrary: r) (simp_all add: finalized_run_call)

text \<open>
  C3, as amended: on a request whose \<open>finalized\<close> flag is true, \<^verbatim>\<open>sendError\<close>,
  \<^verbatim>\<open>reply\<close> and \<^verbatim>\<open>endChunked\<close>, in all their forms, fail with a state error and
  send nothing to the transport; \<^verbatim>\<open>startChunked\<close> and \<^verbatim>\<open>sendChunk\<close> do not look
  at the flag: they succeed and pass the call to the transport.
\<close>

theorem C3_finalized_transitions:
  assumes "finalized r"
  shows "fst (sendError guess code r) = Inl (Exception ''Request already finalized'')
     \<and> transport (snd (sendError guess code r)) = transport r
     \<and> fst (sendError_message guess code m r)
         = Inl (Exception ''Cannot reset output after Request has been finalized'')
     \<and> transport (snd (sendError_message guess code m r)) = transport r
     \<and> fst (reply guess code r) = Inl (Exception ''Request already finalized'')
     \<and> transport (snd (reply guess code r)) = transport r
     \<and> fst (reply_string guess code s r) = Inl (Exception ''Request already finalized'')
     \<and> transport (snd (reply_string guess code s r)) = transport r
     \<and> fst (reply_buffer guess code b r) = Inl (Exception ''Request already finalized'')
     \<and> transport (snd (reply_buffer guess code b r)) = transport r
     \<and> fst (reply_ok guess b r) = Inl (Exception ''Request already finalized'')
     \<and> transport (snd (reply_ok guess b r)) = transport r
     \<and> fst (endChunked guess r) = Inl (Exception ''Request already finalized'')
     \<and> transport (snd (endChunked guess r)) = transport r
     \<and> startChunked code r = (Inr (), r\<lparr>transport := transport r @ [evhttp_send_reply_start code]\<rparr>)
     \<and> sendChunk b r = (Inr (), r\<lparr>transport := transport r @ [evhttp_send_reply_chunk b]\<rparr>)"
  using assms
  by (simp add: sendError_def sendError_message_def reply_def reply_string_def
      reply_buffer_def reply_ok_def startChunked_def sendChunk_def endChunked_def
      resetOutput_def finalize_def and_then_def evhttp_def send_def)


theorem C3_finalized_transitions_witness:
  "fst (reply no_guess 200 (snd (reply no_guess 200 (incoming []))))
     = Inl (Exception ''Request already finalized'')
   \<and> transport (snd (reply no_guess 200 (snd (reply no_guess 200 (incoming [])))))
     = [evhttp_send_reply 200 None]"
proof -
  let ?r = "snd (reply no_guess 200 (incoming []))"
  have fin: "finalized ?r"
    by code_simp
  have "transport ?r = [evhttp_send_reply 200 None]"
    by code_simp
  with C3_finalized_transitions [OF fin, of no_guess 200] show ?thesis
    by simp
qed

theorem C3_counterexample:
  "finalized (run_calls no_guess [Call_startChunked 200, Call_endChunked] (incoming []))
   \<and> fst (sendChunk ''a'' (run_calls no_guess [Call_startChunked 200, Call_endChunked] (incoming [])))
       = Inr ()
   \<and> transport (snd (sendChunk ''a''
         (run_calls no_guess [Call_startChunked 200, Call_endChunked] (incoming []))))
       = [evhttp_send_reply_start 200, evhttp_send_reply_end, evhttp_send_reply_chunk ''a'']"
  by code_simp

text \<open>
  C4: once \<^verbatim>\<open>finalize\<close> has succeeded, every later call of it fails with a state
  error, whatever the application calls in between; and a successful \<^verbatim>\<open>finalize\<close>
  sets the content type guessed from the URI's extension when none was set, and leaves
  the headers alone when one was.
\<close>

theorem C4_finalize_once:
  assumes "\<not> finalized r"
  shows "fst (finalize guess r) = Inr ()
     \<and> finalized (snd (finalize guess r))
     \<and> (\<forall>calls. finalize guess (run_calls guess calls (snd (finalize guess r)))
           = (Inl (Exception ''Request already finalized''),
              run_calls guess calls (snd (finalize guess r))))
     \<and> (\<not> hasContentType r \<longrightarrow>
          (\<forall>t. guess (uri_extension r) = Some t \<longrightarrow>
             hasContentType (snd (finalize guess r))
             \<and> getContentType (snd (finalize guess r)) = t))
     \<and> (hasContentType r \<longrightarrow> output_headers (snd (finalize guess r)) = output_headers r)"
proof -
  have "finalized (run_calls guess calls (snd (finalize guess r)))" for calls
    by (simp add: finalized_run_calls finalized_finalize)
  then have again: "finalize guess (run_calls guess calls (snd (finalize guess r)))
           = (Inl (Exception ''Request already finalized''),
              run_calls guess calls (snd (finalize guess r)))" for calls
    by (rule finalize_again)
  have guessed: "hasContentType (snd (finalize guess r))
             \<and> getContentType (snd (finalize guess r)) = t"
    if "\<not> hasContentType r" "guess (uri_extension r) = Some t" for t
    using that assms
    by (simp add: finalize_first guessContentType_def setContentType_def hasContentType_def
        getContentType_def hdr_find_set hdr_has_set)
  have kept: "output_headers (snd (finalize guess r)) = output_headers r" if "hasContentType r"
    using that assms by (simp add: finalize_first)
  show ?thesis
    using assms again guessed kept by (simp add: finalize_first finalized_finalize)
qed

theorem C4_finalize_once_witness:
  "fst (finalize some_guess ((incoming [])\<lparr>uri_extension := ''png''\<rparr>)) = Inr ()
   \<and> getContentType (snd (finalize some_guess ((incoming [])\<lparr>uri_extension := ''png''\<rparr>)))
       = ''image/png''
   \<and> fst (finalize some_guess
        (run_calls some_guess [Call_send ''x'', Call_finalize]
           (snd (finalize some_guess ((incoming [])\<lparr>uri_extension := ''png''\<rparr>)))))
       = Inl (Exception ''Request already finalized'')
   \<and> output_headers (snd (finalize some_guess
        ((incoming [])\<lparr>uri_extension := ''png'',
                        output_headers := [(''content-type'', ''text/css'')]\<rparr>)))
       = [(''content-type'', ''text/css'')]"
proof -
  let ?r = "(incoming [])\<lparr>uri_extension := ''png''\<rparr>"
  let ?s = "(incoming [])\<lparr>uri_extension := ''png'',
                             output_headers := [(''content-type'', ''text/css'')]\<rparr>"
  have open_r: "\<not> finalized ?r" and no_type: "\<not> hasContentType ?r"
    and png: "some_guess (uri_extension ?r) = Some ''image/png''"
    by code_simp+
  have open_s: "\<not> finalized ?s" and typed: "hasContentType ?s"
    and headers: "output_headers ?s = [(''content-type'', ''text/css'')]"
    by code_simp+
  from C4_finalize_once [OF open_r, of some_guess] no_type png
  have "fst (finalize some_guess ?r) = Inr ()
     \<and> getContentType (snd (finalize some_guess ?r)) = ''image/png''
     \<and> fst (finalize some_guess
          (run_calls some_guess [Call_send ''x'', Call_finalize] (snd (finalize some_guess ?r))))
         = Inl (Exception ''Request already finalized'')"
    by simp
  moreover from C4_finalize_once [OF open_s, of some_guess] typed headers
  have "output_headers (snd (finalize some_guess ?s)) = [(''content-type'', ''text/css'')]"
    by simp
  ultimately show ?thesis
    by simp
qed

section \<open>Content encoding of output streams and writers\<close>

lemma last_improving_not_auto: "last_improving parse toks \<noteq> COMPRESS_AUTO"
  by (induction toks) (auto simp: codec_of_name_def split: option.splits if_splits)

lemma negotiate_not_auto: "negotiate parse toks \<noteq> COMPRESS_AUTO"
  by (simp add: negotiate_def scan_selection_def last_improving_not_auto)

lemma outSetContentEncoding_cases:
  "outSetContentEncoding COMPRESS_ZLIB r = outSet ''Content-Encoding'' ''zlib'' r"
  "outSetContentEncoding COMPRESS_GZIP r = outSet ''Content-Encoding'' ''gzip'' r"
  "outSetContentEncoding COMPRESS_BZIP2 r = outSet ''Content-Encoding'' ''bzip2'' r"
  "outSetContentEncoding COMPRESS_NONE r = r"
  "outSetContentEncoding COMPRESS_AUTO r = r"
  by (simp_all add: outSetContentEncoding_def getContentEncoding_def)

lemma getOutputStream_concrete:
  "c \<noteq> COMPRESS_AUTO \<Longrightarrow>
   getOutputStream parse c r = (Inr (compressBufferStream c), outSetContentEncoding c r)"
  by (simp add: getOutputStream_def)

text \<open>
  C8: requesting an output stream with the codec Zlib, Gzip or Bzip2 sets the
  Content-Encoding response header to \<^verbatim>\<open>zlib\<close>, \<^verbatim>\<open>gzip\<close> or \<^verbatim>\<open>bzip2\<close>, as its
  only entry of that name; with None the response headers are left as they are; Auto
  behaves as the codec negotiated from the request, which is one of these four.
\<close>

theorem C8_content_encoding:
  "outFind (snd (getOutputStream parse COMPRESS_ZLIB r)) ''Content-Encoding'' = ''zlib''
   \<and> filter (\<lambda>e. same_name (fst e) ''Content-Encoding'')
        (output_headers (snd (getOutputStream parse COMPRESS_ZLIB r)))
       = [(''Content-Encoding'', ''zlib'')]
   \<and> outFind (snd (getOutputStream parse COMPRESS_GZIP r)) ''Content-Encoding'' = ''gzip''
   \<and> filter (\<lambda>e. same_name (fst e) ''Content-Encoding'')
        (output_headers (snd (getOutputStream parse COMPRESS_GZIP r)))
       = [(''Content-Encoding'', ''gzip'')]
   \<and> outFind (snd (getOutputStream parse COMPRESS_BZIP2 r)) ''Content-Encoding'' = ''bzip2''
   \<and> filter (\<lambda>e. same_name (fst e) ''Content-Encoding'')
        (output_headers (snd (getOutputStream parse COMPRESS_BZIP2 r)))
       = [(''Content-Encoding'', ''bzip2'')]
   \<and> snd (getOutputStream parse COMPRESS_NONE r) = r
   \<and> (\<exists>c. getRequestedCompression parse r = Inr c \<and> c \<noteq> COMPRESS_AUTO
          \<and> getOutputStream parse COMPRESS_AUTO r = getOutputStream parse c r)"
proof -
  have auto_case: "\<exists>c. getRequestedCompression parse r = Inr c \<and> c \<noteq> COMPRESS_AUTO
          \<and> getOutputStream parse COMPRESS_AUTO r = getOutputStream parse c r"
    by (simp add: getRequestedCompression_tokens negotiate_not_auto getOutputStream_def)
  then show ?thesis
    by (simp add: getOutputStream_concrete outSetContentEncoding_cases outSet_def outFind_def
        hdr_find_set hdr_entries_set)
qed

theorem C8_content_encoding_witness:
  "output_headers (snd (getOutputStream parseDouble COMPRESS_GZIP
      ((incoming [])\<lparr>output_headers := [(''content-encoding'', ''zlib''), (''Date'', ''now'')]\<rparr>)))
     = [(''Date'', ''now''), (''Content-Encoding'', ''gzip'')]
   \<and> outFind (snd (getOutputStream parseDouble COMPRESS_GZIP
      ((incoming [])\<lparr>output_headers := [(''content-encoding'', ''zlib''), (''Date'', ''now'')]\<rparr>)))
      ''Content-Encoding'' = ''gzip''"
proof -
  let ?r = "(incoming [])\<lparr>output_headers := [(''content-encoding'', ''zlib''), (''Date'', ''now'')]\<rparr>"
  have "output_headers (snd (getOutputStream parseDouble COMPRESS_GZIP ?r))
     = [(''Date'', ''now''), (''Content-Encoding'', ''gzip'')]"
    by code_simp
  with C8_content_encoding [of parseDouble ?r] show ?thesis
    by simp
qed

text \<open>
  C10: the JSONP writer and the chunked JSON writer are built with compression None
  whatever the request's Accept-Encoding says: their stream is the buffer's own stream,
  what is written reaches the output as it was written, and constructing them leaves the
  Content-Encoding response header as it was.
\<close>

theorem C10_uncompressed_writers:
  "(\<exists>w. getJSONChunkWriter r = (Inr w, r)
        \<and> writer_compression w = COMPRESS_NONE \<and> stream w = BufferStream
        \<and> writer_close compress (stream_write payload w) r2 = sendChunk payload r2)
   \<and> (\<not> finalized r \<longrightarrow>
        (\<exists>w r'. getJSONPWriter callback r = (Inr w, r')
           \<and> writer_compression w = COMPRESS_NONE \<and> stream w = BufferStream
           \<and> hdr_lookup (output_headers r') ''Content-Encoding''
               = hdr_lookup (output_headers r) ''Content-Encoding''
           \<and> writer_close compress (stream_write payload w) r2
               = (Inr (), send (callback @ ''('' @ payload @ '')'') r2)))"
proof -
  have differ: "\<not> same_name ''Content-Type'' ''Content-Encoding''"
    by code_simp
  show ?thesis
    by (simp add: getJSONChunkWriter_def getJSONPWriter_def JSONWriter_def
        outSetContentEncoding_cases compressBufferStream_def writer_close_def stream_write_def
        resetOutput_def and_then_def setContentType_def hdr_lookup_set_other [OF differ])
qed

theorem C10_uncompressed_writers_witness:
  "outFind (snd (getJSONPWriter ''cb'' (incoming [(''Accept-Encoding'', ''gzip'')])))
      ''Content-Encoding'' = []
   \<and> getRequestedCompression parseDouble (incoming [(''Accept-Encoding'', ''gzip'')])
      = Inr COMPRESS_GZIP"
proof -
  let ?r = "incoming [(''Accept-Encoding'', ''gzip'')]"
  have open_r: "\<not> finalized ?r"
    and none: "hdr_lookup (output_headers ?r) ''Content-Encoding'' = None"
    and gzip: "getRequestedCompression parseDouble ?r = Inr COMPRESS_GZIP"
    by code_simp+
  from C10_uncompressed_writers [where r = ?r and callback = "''cb''" and payload = "[]"
      and compress = "\<lambda>c s. s" and ?r2.0 = ?r] open_r
  obtain w r' where "getJSONPWriter ''cb'' ?r = (Inr w, r')"
    and "hdr_lookup (output_headers r') ''Content-Encoding''
           = hdr_lookup (output_headers ?r) ''Content-Encoding''"
    by blast
  with none gzip show ?thesis
    by (simp add: outFind_def hdr_find_def)
qed

section \<open>Merging the arguments\<close>

lemma map_of_dict_insert: "map_of (dict_insert d k v) = (map_of d)(k \<mapsto> v)"
  by (induction d) (auto simp: fun_eq_iff)

lemma map_of_foldl_insert:
  "map_of (foldl (\<lambda>d (k, v). dict_insert d k (f v)) d kvs)
     = map_of d ++ map_of (rev (map (\<lambda>(k, v). (k, f v)) kvs))"
proof (induction kvs arbitrary: d)
  case Nil
  show ?case by simp
next
  case (Cons kv kvs)
  obtain k v where kv: "kv = (k, v)" by (cases kv)
  show ?case
    by (simp add: kv Cons.IH map_of_dict_insert map_add_def fun_eq_iff split: option.splits)
qed

lemma foldl_insertArg:
  "foldl (\<lambda>r (k, v). insertArg k v r) r q
     = r\<lparr>args := foldl (\<lambda>d (k, v). dict_insert d k (JString v)) (args r) q\<rparr>"
  by (induction q arbitrary: r) (auto simp: insertArg_def)

lemma map_of_rev_JString:
  "map_of (rev (map (\<lambda>(k, v). (k, JString v)) q)) k = map_option JString (map_of (rev q) k)"
  by (induction q) (auto simp: map_add_def split: option.splits)

text \<open>
  C6: \<^verbatim>\<open>parseArgs\<close> inserts the members of a JSON-object body first (when the request
  is JSON-typed) and the URI's query parameters second, so that the query value is the one
  found under a key both have: the body \<^verbatim>\<open>{"x":1}\<close> with the query
  \<^verbatim>\<open>?x=2&y=3\<close> gives the dictionary with \<^verbatim>\<open>x\<close> 2 and \<^verbatim>\<open>y\<close> 3, the values
  being the query's strings.
\<close>

theorem C6_query_overwrites_json:
  "(parseJSONArgs parseDict r = (Inr (), r1) \<longrightarrow>
      parseArgs parseDict r
        = (Inr (), r1\<lparr>args := foldl (\<lambda>d (k, v). dict_insert d k (JString v)) (args r1) (uri_query r)\<rparr>)
      \<and> (\<forall>k. dict_get (args (snd (parseArgs parseDict r))) k
            = (case map_of (rev (uri_query r)) k of
                 Some v \<Rightarrow> Some (JString v)
               | None \<Rightarrow> dict_get (args r1) k)))
   \<and> (json_typed r \<and> input_buffer r \<noteq> [] \<and> reader_next (input_buffer r) = Some (CHR ''{'')
        \<and> parseDict (input_buffer r) = Inr members \<longrightarrow>
      (\<exists>r1. parseJSONArgs parseDict r = (Inr (), r1) \<and> uri_query r1 = uri_query r
         \<and> (\<forall>k. dict_get (args r1) k
               = (case map_of (rev members) k of
                    Some j \<Rightarrow> Some j
                  | None \<Rightarrow> dict_get (args r) k))))
   \<and> (parseDict body_x1 = Inr [(''x'', JNumber 1)] \<longrightarrow>
        args (snd (parseArgs parseDict
          ((incoming [(''Content-Type'', ''application/json'')])
             \<lparr>input_buffer := body_x1, uri_query := [(''x'', ''2''), (''y'', ''3'')]\<rparr>)))
        = [(''x'', JString ''2''), (''y'', JString ''3'')])"
proof -
  have merged: "parseArgs parseDict r
        = (Inr (), r1\<lparr>args := foldl (\<lambda>d (k, v). dict_insert d k (JString v)) (args r1) (uri_query r)\<rparr>)
      \<and> (\<forall>k. dict_get (args (snd (parseArgs parseDict r))) k
            = (case map_of (rev (uri_query r)) k of
                 Some v \<Rightarrow> Some (JString v)
               | None \<Rightarrow> dict_get (args r1) k))"
    if json: "parseJSONArgs parseDict r = (Inr (), r1)"
  proof -
    have "uri_query r1 = uri_query r"
      using json by (auto simp: parseJSONArgs_def Let_def split: if_splits sum.splits)
    then have eq: "parseArgs parseDict r
        = (Inr (), r1\<lparr>args := foldl (\<lambda>d (k, v). dict_insert d k (JString v)) (args r1) (uri_query r)\<rparr>)"
      by (simp add: parseArgs_def json and_then_def parseQueryArgs_def foldl_insertArg)
    show ?thesis
      unfolding eq
      by (simp add: dict_get_def map_of_foldl_insert map_of_rev_JString map_add_def
          split: option.splits)
  qed
  have json_stage: "\<exists>r1. parseJSONArgs parseDict r = (Inr (), r1) \<and> uri_query r1 = uri_query r
         \<and> (\<forall>k. dict_get (args r1) k
               = (case map_of (rev members) k of
                    Some j \<Rightarrow> Some j
                  | None \<Rightarrow> dict_get (args r) k))"
    if "json_typed r" "input_buffer r \<noteq> []" "reader_next (input_buffer r) = Some (CHR ''{'')"
      "parseDict (input_buffer r) = Inr members"
    using that map_of_foldl_insert [of "\<lambda>v. v" "args r" members]
    by (simp add: parseJSONArgs_def Let_def dict_get_def map_add_def split: option.splits)
  have example: "args (snd (parseArgs parseDict
          ((incoming [(''Content-Type'', ''application/json'')])
             \<lparr>input_buffer := body_x1, uri_query := [(''x'', ''2''), (''y'', ''3'')]\<rparr>)))
        = [(''x'', JString ''2''), (''y'', JString ''3'')]"
    if "parseDict body_x1 = Inr [(''x'', JNumber 1)]"
  proof -
    have "body_x1 \<noteq> []" and "reader_next body_x1 = Some (CHR ''{'')"
      and "json_typed ((incoming [(''Content-Type'', ''application/json'')])
             \<lparr>input_buffer := body_x1, uri_query := [(''x'', ''2''), (''y'', ''3'')]\<rparr>)"
      by code_simp+
    with that show ?thesis
      by (simp add: parseArgs_def parseJSONArgs_def parseQueryArgs_def and_then_def
          insertArg_def incoming_def Let_def)
  qed
  from merged json_stage example show ?thesis
    by blast
qed

theorem C6_query_overwrites_json_witness:
  "args (snd (parseArgs (\<lambda>body. Inr [(''x'', JNumber 1)])
          ((incoming [(''Content-Type'', ''application/json'')])
             \<lparr>input_buffer := body_x1, uri_query := [(''x'', ''2''), (''y'', ''3'')]\<rparr>)))
     = [(''x'', JString ''2''), (''y'', JString ''3'')]
   \<and> dict_get (args (snd (parseArgs (\<lambda>body. Inr [(''x'', JNumber 1), (''z'', JNull)])
          ((incoming [(''Content-Type'', ''application/json'')])
             \<lparr>input_buffer := body_x1, uri_query := [(''x'', ''2''), (''y'', ''3'')]\<rparr>)))) ''x''
     = Some (JString ''2'')"
proof -
  let ?r = "(incoming [(''Content-Type'', ''application/json'')])
             \<lparr>input_buffer := body_x1, uri_query := [(''x'', ''2''), (''y'', ''3'')]\<rparr>"
  let ?p = "\<lambda>body :: string. Inr [(''x'', JNumber 1)] :: exn + (string \<times> json) list"
  let ?p2 = "\<lambda>body :: string. Inr [(''x'', JNumber 1), (''z'', JNull)] :: exn + (string \<times> json) list"
  have 1: "args (snd (parseArgs ?p ?r)) = [(''x'', JString ''2''), (''y'', JString ''3'')]"
    using C6_query_overwrites_json [where parseDict = ?p] by simp
  have typed: "json_typed ?r" and body: "input_buffer ?r \<noteq> []"
    and brace: "reader_next (input_buffer ?r) = Some (CHR ''{'')"
    by code_simp+
  from C6_query_overwrites_json [where parseDict = ?p2 and r = ?r
      and members = "[(''x'', JNumber 1), (''z'', JNull)]"] typed body brace
  obtain r1 where "parseJSONArgs ?p2 ?r = (Inr (), r1)"
    by blast
  with C6_query_overwrites_json [where parseDict = ?p2 and r = ?r and ?r1.0 = r1]
  have "dict_get (args (snd (parseArgs ?p2 ?r))) ''x''
          = (case map_of (rev (uri_query ?r)) ''x'' of
               Some v \<Rightarrow> Some (JString v)
             | None \<Rightarrow> dict_get (args r1) ''x'')"
    by blast
  also have "\<dots> = Some (JString ''2'')"
    by (simp add: incoming_def)
  finally show ?thesis
    using 1 by simp
qed

section \<open>The peer of a connection\<close>

text \<open>
  C7, as amended: \<^verbatim>\<open>Connection::getPeer\<close> starts from the peer the transport reports
  (the default address when it reports none); whenever the raw socket address is present
  and IPv4, the port and the IP of the result are the socket's, whether the transport
  reported a peer or not; with no socket address, or one of another family, the result is
  the transport-reported peer.
\<close>

theorem C7_getPeer:
  "(socket_addr con = Some sa \<and> sa_family sa = AF_INET \<longrightarrow>
      ip (getPeer con) = sin_addr sa \<and> port (getPeer con) = sin_port sa
      \<and> host (getPeer con) = (case peer_address con of Some addr \<Rightarrow> addr | None \<Rightarrow> []))
   \<and> (socket_addr con = None \<or> (socket_addr con = Some sa \<and> sa_family sa \<noteq> AF_INET) \<longrightarrow>
      getPeer con = (case peer_address con of
                       Some addr \<Rightarrow> IPAddress_of addr (peer_port con)
                     | None \<Rightarrow> IPAddress_default))"
  by (auto simp: getPeer_def Let_def setIP_def setPort_def IPAddress_of_def IPAddress_default_def
      split: option.splits)

theorem C7_getPeer_witness:
  "getPeer \<lparr>peer_address = Some ''10.0.0.7'', peer_port = 443, socket_addr = None\<rparr>
     = IPAddress_of ''10.0.0.7'' 443
   \<and> ip (getPeer \<lparr>peer_address = Some ''10.0.0.7'', peer_port = 443,
          socket_addr = Some \<lparr>sa_family = AF_INET, sin_port = 47873, sin_addr = 0x0700000A\<rparr>\<rparr>)
     = 0x0700000A"
proof -
  let ?none = "\<lparr>peer_address = Some ''10.0.0.7'', peer_port = 443, socket_addr = None\<rparr>"
  let ?sa = "\<lparr>sa_family = AF_INET, sin_port = 47873, sin_addr = 0x0700000A\<rparr>"
  let ?both = "\<lparr>peer_address = Some ''10.0.0.7'', peer_port = 443, socket_addr = Some ?sa\<rparr>"
  have "getPeer ?none = IPAddress_of ''10.0.0.7'' 443"
    using C7_getPeer [of ?none] by simp
  moreover have "ip (getPeer ?both) = 0x0700000A"
    using C7_getPeer [of ?both ?sa] by simp
  ultimately show ?thesis
    by simp
qed

theorem C7_counterexample:
  "getPeer \<lparr>peer_address = Some ''127.0.0.1'', peer_port = 8080,
            socket_addr = Some \<lparr>sa_family = AF_INET, sin_port = 36895, sin_addr = 0x0100007F\<rparr>\<rparr>
     \<noteq> IPAddress_of ''127.0.0.1'' 8080"
  by (simp add: getPeer_def Let_def setIP_def setPort_def IPAddress_of_def IPAddress_default_def)

end
